theory Spec2Isabelle
  imports Complex_Main "HOL-Library.Log_Nat"
begin

section \<open>JavaScript values\<close>

text \<open>
  The engine (\<^verbatim>\<open>generateGaussian\<close> and \<^verbatim>\<open>runGBM\<close> in \<^verbatim>\<open>src/App.tsx\<close>) computes with
  JavaScript numbers and reads arrays by index. A value is a finite number, one of the
  three special numbers, or \<^verbatim>\<open>undefined\<close> (what an array read past the end yields).
  \<open>Num x\<close> carries the mathematical value \<open>x\<close>: the arithmetic on finite numbers is
  exact, so rounding, overflow and the sign of zero are not part of the model (a zero
  divisor is read as \<open>+0\<close>). The special values follow IEEE 754 as ECMAScript fixes it:
  they arise from division by zero and from \<^verbatim>\<open>Math.log\<close> and \<^verbatim>\<open>Math.sqrt\<close> outside their
  domain, and they propagate. An arithmetic operator converts \<^verbatim>\<open>undefined\<close> to \<open>NaN\<close>.
\<close>

datatype jsval = Num real | PInf | NInf | NaN | Undefined

fun js_neg :: "jsval \<Rightarrow> jsval" where
  "js_neg (Num x) = Num (- x)"
| "js_neg PInf = NInf"
| "js_neg NInf = PInf"
| "js_neg NaN = NaN"
| "js_neg Undefined = NaN"

fun js_add :: "jsval \<Rightarrow> jsval \<Rightarrow> jsval" where
  "js_add (Num x) (Num y) = Num (x + y)"
| "js_add (Num x) PInf = PInf"
| "js_add (Num x) NInf = NInf"
| "js_add PInf (Num y) = PInf"
| "js_add PInf PInf = PInf"
| "js_add NInf (Num y) = NInf"
| "js_add NInf NInf = NInf"
| "js_add _ _ = NaN"

definition js_sub :: "jsval \<Rightarrow> jsval \<Rightarrow> jsval" where
  "js_sub a b = js_add a (js_neg b)"

fun js_mul :: "jsval \<Rightarrow> jsval \<Rightarrow> jsval" where
  "js_mul (Num x) (Num y) = Num (x * y)"
| "js_mul (Num x) PInf = (if x = 0 then NaN else if 0 < x then PInf else NInf)"
| "js_mul (Num x) NInf = (if x = 0 then NaN else if 0 < x then NInf else PInf)"
| "js_mul PInf (Num y) = (if y = 0 then NaN else if 0 < y then PInf else NInf)"
| "js_mul NInf (Num y) = (if y = 0 then NaN else if 0 < y then NInf else PInf)"
| "js_mul PInf PInf = PInf"
| "js_mul PInf NInf = NInf"
| "js_mul NInf PInf = NInf"
| "js_mul NInf NInf = PInf"
| "js_mul _ _ = NaN"

fun js_div :: "jsval \<Rightarrow> jsval \<Rightarrow> jsval" where
  "js_div (Num x) (Num y) =
     (if y = 0 then (if x = 0 then NaN else if 0 < x then PInf else NInf)
      else Num (x / y))"
| "js_div (Num x) PInf = Num 0"
| "js_div (Num x) NInf = Num 0"
| "js_div PInf (Num y) = (if y < 0 then NInf else PInf)"
| "js_div NInf (Num y) = (if y < 0 then PInf else NInf)"
| "js_div _ _ = NaN"

fun Math_log :: "jsval \<Rightarrow> jsval" where
  "Math_log (Num x) = (if x < 0 then NaN else if x = 0 then NInf else Num (ln x))"
| "Math_log PInf = PInf"
| "Math_log _ = NaN"

fun Math_sqrt :: "jsval \<Rightarrow> jsval" where
  "Math_sqrt (Num x) = (if x < 0 then NaN else Num (sqrt x))"
| "Math_sqrt PInf = PInf"
| "Math_sqrt _ = NaN"

fun Math_exp :: "jsval \<Rightarrow> jsval" where
  "Math_exp (Num x) = Num (exp x)"
| "Math_exp PInf = PInf"
| "Math_exp NInf = Num 0"
| "Math_exp _ = NaN"

fun Math_cos :: "jsval \<Rightarrow> jsval" where
  "Math_cos (Num x) = Num (cos x)"
| "Math_cos _ = NaN"

fun Math_floor :: "jsval \<Rightarrow> jsval" where
  "Math_floor (Num x) = Num (of_int \<lfloor>x\<rfloor>)"
| "Math_floor PInf = PInf"
| "Math_floor NInf = NInf"
| "Math_floor _ = NaN"

text \<open>\<^verbatim>\<open>Math.pow(x, k)\<close> for an exponent that is a natural number (the engine squares).\<close>

fun Math_pow :: "jsval \<Rightarrow> nat \<Rightarrow> jsval" where
  "Math_pow (Num x) k = Num (x ^ k)"
| "Math_pow PInf k = (if k = 0 then Num 1 else PInf)"
| "Math_pow NInf k = (if k = 0 then Num 1 else if even k then PInf else NInf)"
| "Math_pow _ k = (if k = 0 then Num 1 else NaN)"

definition Math_PI :: jsval where
  "Math_PI = Num pi"


text \<open>\<^verbatim>\<open>xs[i]\<close> for an array and a natural number: \<^verbatim>\<open>undefined\<close> past the end.\<close>

definition js_nth :: "jsval list \<Rightarrow> nat \<Rightarrow> jsval" where
  "js_nth xs i = (if i < length xs then xs ! i else Undefined)"

section \<open>Return statistics\<close>

text \<open>
  The first block of \<^verbatim>\<open>runGBM\<close>: the loop over \<^verbatim>\<open>i = 1 .. length - 1\<close> that pushes
  \<^verbatim>\<open>Math.log(current / prev)\<close>, the two \<^verbatim>\<open>reduce\<close> calls (left folds from \<open>0\<close>), and
  the volatility and drift.
\<close>

definition log_returns :: "jsval list \<Rightarrow> jsval list" where
  "log_returns historicalPrices =
     map (\<lambda>i. Math_log (js_div (js_nth historicalPrices i) (js_nth historicalPrices (i - 1))))
       [1 ..< length historicalPrices]"

definition meanReturn :: "jsval list \<Rightarrow> jsval" where
  "meanReturn returns =
     js_div (foldl (\<lambda>a b. js_add a b) (Num 0) returns) (Num (real (length returns)))"

definition variance :: "jsval list \<Rightarrow> jsval" where
  "variance returns =
     js_div
       (foldl (\<lambda>acc val. js_add acc (Math_pow (js_sub val (meanReturn returns)) 2)) (Num 0) returns)
       (js_sub (Num (real (length returns))) (Num 1))"

definition volatility :: "jsval list \<Rightarrow> jsval" where
  "volatility returns = Math_sqrt (variance returns)"

definition drift :: "jsval list \<Rightarrow> jsval" where
  "drift returns = js_sub (meanReturn returns) (js_div (variance returns) (Num 2))"

subsection \<open>The statistics as the specification words them\<close>

definition spec_log_returns :: "real list \<Rightarrow> real list" where
  "spec_log_returns p = map (\<lambda>i. ln (p ! (i + 1) / p ! i)) [0 ..< length p - 1]"

definition spec_mean :: "real list \<Rightarrow> real" where
  "spec_mean r = sum_list r / real (length r)"

definition spec_variance :: "real list \<Rightarrow> real" where
  "spec_variance r = (\<Sum>x\<leftarrow>r. (x - spec_mean r)\<^sup>2) / (real (length r) - 1)"

section \<open>The random source and the Gaussian sampler\<close>

text \<open>
  \<^verbatim>\<open>Math.random()\<close> is the only effect of the engine. Its state is a tape of the draws
  still to come, threaded through every call; each draw is a real number (the contract
  of \<^verbatim>\<open>Math.random\<close>, a draw in \<open>[0, 1)\<close>, is a hypothesis of the theorems that need it).
  A call on the empty tape has the value \<open>None\<close>: the run asked for more draws than the
  tape holds, and every function below passes that \<open>None\<close> on.
\<close>

fun Math_random :: "real list \<Rightarrow> (real \<times> real list) option" where
  "Math_random [] = None"
| "Math_random (x # tape) = Some (x, tape)"

text \<open>
  \<^verbatim>\<open>while (u === 0) u = Math.random();\<close> with the current value of \<open>u\<close> and the tape: the
  loop redraws for as long as \<open>u\<close> is \<open>0\<close>.
\<close>

fun redraw :: "real \<Rightarrow> real list \<Rightarrow> (real \<times> real list) option" where
  "redraw u [] = (if u = 0 then None else Some (u, []))"
| "redraw u (x # tape) = (if u = 0 then redraw x tape else Some (u, x # tape))"

definition generateGaussian :: "real list \<Rightarrow> (jsval \<times> real list) option" where
  "generateGaussian tape =
     (case redraw 0 tape of
        None \<Rightarrow> None
      | Some (u, tape1) \<Rightarrow>
          (case redraw 0 tape1 of
             None \<Rightarrow> None
           | Some (v, tape2) \<Rightarrow>
               Some (js_mul (Math_sqrt (js_mul (Num (- 2)) (Math_log (Num u))))
                            (Math_cos (js_mul (js_mul (Num 2) Math_PI) (Num v))),
                     tape2)))"

section \<open>Sorting\<close>

text \<open>
  \<^verbatim>\<open>Array.prototype.sort(comparefn)\<close>. ECMAScript reads a comparator result \<open>NaN\<close> as
  \<open>+0\<close>, moves \<^verbatim>\<open>undefined\<close> elements to the end without comparing them, and requires a
  stable sort. With a consistent comparator the result is thereby determined, and the
  stable insertion sort below computes it; with an inconsistent one (a \<open>NaN\<close> among
  the keys) the order is implementation-defined, and the model fixes the insertion
  sort's.
\<close>

fun js_positive :: "jsval \<Rightarrow> bool" where
  "js_positive (Num x) = (0 < x)"
| "js_positive PInf = True"
| "js_positive _ = False"

fun insert_by :: "('a \<Rightarrow> 'a \<Rightarrow> jsval) \<Rightarrow> 'a \<Rightarrow> 'a list \<Rightarrow> 'a list" where
  "insert_by comparefn x [] = [x]"
| "insert_by comparefn x (y # ys) =
     (if js_positive (comparefn x y) then y # insert_by comparefn x ys else x # y # ys)"

definition sort_by :: "('a \<Rightarrow> 'a \<Rightarrow> jsval) \<Rightarrow> 'a list \<Rightarrow> 'a list" where
  "sort_by comparefn xs = foldr (insert_by comparefn) xs []"

definition js_sort :: "(jsval \<Rightarrow> jsval \<Rightarrow> jsval) \<Rightarrow> jsval list \<Rightarrow> jsval list" where
  "js_sort comparefn xs =
     sort_by comparefn (filter (\<lambda>x. x \<noteq> Undefined) xs) @ filter (\<lambda>x. x = Undefined) xs"

section \<open>The percentile index\<close>

text \<open>
  \<^verbatim>\<open>Math.floor(numSimulations * 0.05)\<close> and its four siblings are computed bit for bit,
  since what they index depends on how the product rounds. A binary64 literal is the
  pair \<open>(m, k)\<close> of its exact value \<open>m / 2 ^ k\<close>. The product of the integer
  \<open>numSimulations\<close> and the literal is the exact product rounded to 53 significant
  bits, to nearest, ties to even (no overflow or underflow can occur for a literal in
  \<open>[0.05, 1)\<close>); \<^verbatim>\<open>Math.floor\<close> of it is an integer division.
\<close>

definition round_half_even :: "int \<Rightarrow> nat \<Rightarrow> int" where
  "round_half_even p s =
     (let q = p div 2 ^ s; r = p mod 2 ^ s
      in if 2 * r < 2 ^ s then q
         else if 2 ^ s < 2 * r then q + 1
         else if even q then q else q + 1)"

definition round53 :: "int \<Rightarrow> int" where
  "round53 p =
     (if bitlen p \<le> 53 then p
      else round_half_even p (nat (bitlen p - 53)) * 2 ^ nat (bitlen p - 53))"

definition double_0_05 :: "int \<times> nat" where
  "double_0_05 = (3602879701896397, 56)"

definition double_0_25 :: "int \<times> nat" where
  "double_0_25 = (1, 2)"

definition double_0_50 :: "int \<times> nat" where
  "double_0_50 = (1, 1)"

definition double_0_75 :: "int \<times> nat" where
  "double_0_75 = (3, 2)"

definition double_0_95 :: "int \<times> nat" where
  "double_0_95 = (4278419646001971, 52)"

definition percentile_index :: "nat \<Rightarrow> int \<times> nat \<Rightarrow> nat" where
  "percentile_index numSimulations q =
     nat (round53 (int numSimulations * fst q) div 2 ^ snd q)"


section \<open>Path simulation and aggregation\<close>

text \<open>Reading an array: \<open>None\<close> is \<^verbatim>\<open>undefined\<close>.\<close>

definition js_at :: "'a list \<Rightarrow> nat \<Rightarrow> 'a option" where
  "js_at xs i = (if i < length xs then Some (xs ! i) else None)"

text \<open>The natural number a value denotes as an array index, if it denotes one.\<close>

fun array_index :: "jsval \<Rightarrow> nat option" where
  "array_index (Num x) = (if 0 \<le> x \<and> x = of_int \<lfloor>x\<rfloor> then Some (nat \<lfloor>x\<rfloor>) else None)"
| "array_index _ = None"

text \<open>
  The inner loop of \<^verbatim>\<open>runGBM\<close>, \<^verbatim>\<open>for (t = 1; t <= days; t++)\<close>, with the number of steps
  still to take: the prices it pushes, and the tape it leaves.
\<close>

fun path_steps ::
  "jsval \<Rightarrow> jsval \<Rightarrow> nat \<Rightarrow> jsval \<Rightarrow> real list \<Rightarrow> (jsval list \<times> real list) option" where
  "path_steps drft vol 0 currentPrice tape = Some ([], tape)"
| "path_steps drft vol (Suc k) currentPrice tape =
     (case generateGaussian tape of
        None \<Rightarrow> None
      | Some (Z, tape1) \<Rightarrow>
          (let shock = js_add drft (js_mul vol Z);
               currentPrice' = js_mul currentPrice (Math_exp shock)
           in case path_steps drft vol k currentPrice' tape1 of
                None \<Rightarrow> None
              | Some (rest, tape2) \<Rightarrow> Some (currentPrice' # rest, tape2)))"

text \<open>The outer loop, \<^verbatim>\<open>for (sim = 0; sim < numSimulations; sim++)\<close>.\<close>

fun gen_paths ::
  "jsval \<Rightarrow> jsval \<Rightarrow> jsval \<Rightarrow> nat \<Rightarrow> nat \<Rightarrow> real list \<Rightarrow> (jsval list list \<times> real list) option" where
  "gen_paths drft vol lastPrice days 0 tape = Some ([], tape)"
| "gen_paths drft vol lastPrice days (Suc k) tape =
     (case path_steps drft vol days lastPrice tape of
        None \<Rightarrow> None
      | Some (steps, tape1) \<Rightarrow>
          (case gen_paths drft vol lastPrice days k tape1 of
             None \<Rightarrow> None
           | Some (paths, tape2) \<Rightarrow> Some ((lastPrice # steps) # paths, tape2)))"

text \<open>
  The statistics and the ensemble for a non-empty price series: \<^verbatim>\<open>allPaths\<close> as it
  stands after the outer loop.
\<close>

definition simulate_paths ::
  "jsval list \<Rightarrow> nat \<Rightarrow> nat \<Rightarrow> real list \<Rightarrow> (jsval list list \<times> real list) option" where
  "simulate_paths historicalPrices days numSimulations tape =
     (let returns = log_returns historicalPrices;
          lastPrice = js_nth historicalPrices (length historicalPrices - 1)
      in gen_paths (drift returns) (volatility returns) lastPrice days numSimulations tape)"

record path_index =
  index :: nat
  finalPrice :: jsval

definition sortedPathIndices :: "jsval list list \<Rightarrow> nat \<Rightarrow> path_index list" where
  "sortedPathIndices allPaths days =
     sort_by (\<lambda>a b. js_sub (finalPrice a) (finalPrice b))
       (map (\<lambda>(i, path). \<lparr>index = i, finalPrice = js_nth path days\<rparr>) (enumerate 0 allPaths))"

text \<open>
  \<^verbatim>\<open>sortedPathIndices[0].index\<close> and \<^verbatim>\<open>sortedPathIndices[length - 1].index\<close>: on an empty
  array the element is \<^verbatim>\<open>undefined\<close> and reading \<^verbatim>\<open>.index\<close> throws, the value \<open>None\<close>.
\<close>

definition minPathIndex :: "jsval list list \<Rightarrow> nat \<Rightarrow> nat option" where
  "minPathIndex allPaths days =
     (case sortedPathIndices allPaths days of [] \<Rightarrow> None | first # others \<Rightarrow> Some (index first))"

definition maxPathIndex :: "jsval list list \<Rightarrow> nat \<Rightarrow> nat option" where
  "maxPathIndex allPaths days =
     (case sortedPathIndices allPaths days of
        [] \<Rightarrow> None
      | first # others \<Rightarrow> Some (index (last (first # others))))"

text \<open>\<^verbatim>\<open>Array.from({ length: k }, () => Math.floor(Math.random() * numSimulations))\<close>.\<close>

fun random_indices :: "nat \<Rightarrow> nat \<Rightarrow> real list \<Rightarrow> (jsval list \<times> real list) option" where
  "random_indices 0 numSimulations tape = Some ([], tape)"
| "random_indices (Suc k) numSimulations tape =
     (case Math_random tape of
        None \<Rightarrow> None
      | Some (x, tape1) \<Rightarrow>
          (case random_indices k numSimulations tape1 of
             None \<Rightarrow> None
           | Some (rest, tape2) \<Rightarrow>
               Some (Math_floor (js_mul (Num x) (Num (real numSimulations))) # rest, tape2)))"

text \<open>
  The record of one day. \<open>range_band\<close> is the field \<^verbatim>\<open>range\<close>; \<open>sim\<close> holds the values
  of the keys \<^verbatim>\<open>sim0\<close>, \<^verbatim>\<open>sim1\<close>, ... in that order; \<^verbatim>\<open>simLines\<close> is the empty object.
\<close>

record SimDataPoint =
  day :: nat
  median :: jsval
  range_band :: "jsval \<times> jsval"
  innerRange :: "jsval \<times> jsval"
  p5 :: jsval
  p95 :: jsval
  outlierMin :: jsval
  outlierMax :: jsval
  simLines :: "(string \<times> jsval) list"
  sim :: "jsval list"

text \<open>
  \<open>volatility_percent\<close> is the number \<^verbatim>\<open>volatility * 100\<close> that the field \<^verbatim>\<open>volatility\<close>
  renders with \<^verbatim>\<open>toFixed(2)\<close>; the rendering is not modelled.
\<close>

record Stats =
  current :: jsval
  projectedMedian :: jsval
  projectedLow :: jsval
  projectedHigh :: jsval
  volatility_percent :: jsval

record SimResult =
  data :: "SimDataPoint list"
  stats :: Stats

text \<open>
  \<^verbatim>\<open>allPaths[i][t]\<close>: reading \<^verbatim>\<open>[t]\<close> of \<^verbatim>\<open>undefined\<close> throws a \<^verbatim>\<open>TypeError\<close>, the value
  \<open>None\<close> here.
\<close>

definition path_value :: "jsval list list \<Rightarrow> nat option \<Rightarrow> nat \<Rightarrow> jsval option" where
  "path_value allPaths i t =
     (case i of
        None \<Rightarrow> None
      | Some j \<Rightarrow> (case js_at allPaths j of None \<Rightarrow> None | Some path \<Rightarrow> Some (js_nth path t)))"

text \<open>The \<^verbatim>\<open>forEach\<close> over \<^verbatim>\<open>randomIndices\<close> that fills the keys \<^verbatim>\<open>sim0\<close>, \<^verbatim>\<open>sim1\<close>, ...\<close>

fun sim_values :: "jsval list list \<Rightarrow> jsval list \<Rightarrow> nat \<Rightarrow> jsval list option" where
  "sim_values allPaths [] t = Some []"
| "sim_values allPaths (simIndex # rest) t =
     (case path_value allPaths (array_index simIndex) t of
        None \<Rightarrow> None
      | Some v \<Rightarrow>
          (case sim_values allPaths rest t of None \<Rightarrow> None | Some vs \<Rightarrow> Some (v # vs)))"

text \<open>The body of the aggregation loop for the day \<open>t\<close>; \<open>None\<close> is a \<^verbatim>\<open>TypeError\<close>.\<close>

definition dayData ::
  "jsval list list \<Rightarrow> nat \<Rightarrow> nat \<Rightarrow> nat \<Rightarrow> jsval list \<Rightarrow> nat \<Rightarrow> SimDataPoint option" where
  "dayData allPaths numSimulations minIndex maxIndex randomIndices t =
     (let pricesAtT = js_sort (\<lambda>a b. js_sub a b) (map (\<lambda>path. js_nth path t) allPaths);
          p5 = js_nth pricesAtT (percentile_index numSimulations double_0_05);
          p25 = js_nth pricesAtT (percentile_index numSimulations double_0_25);
          p50 = js_nth pricesAtT (percentile_index numSimulations double_0_50);
          p75 = js_nth pricesAtT (percentile_index numSimulations double_0_75);
          p95 = js_nth pricesAtT (percentile_index numSimulations double_0_95)
      in case path_value allPaths (Some minIndex) t of
           None \<Rightarrow> None
         | Some omin \<Rightarrow>
             (case path_value allPaths (Some maxIndex) t of
                None \<Rightarrow> None
              | Some omax \<Rightarrow>
                  (case sim_values allPaths randomIndices t of
                     None \<Rightarrow> None
                   | Some sims \<Rightarrow>
                       Some \<lparr>day = t, median = p50, range_band = (p5, p95),
                             innerRange = (p25, p75), p5 = p5, p95 = p95,
                             outlierMin = omin, outlierMax = omax,
                             simLines = [], sim = sims\<rparr>)))"

text \<open>The aggregation loop over the days, stopping at the first \<^verbatim>\<open>TypeError\<close>.\<close>

fun collect_days :: "(nat \<Rightarrow> SimDataPoint option) \<Rightarrow> nat list \<Rightarrow> SimDataPoint list option" where
  "collect_days f [] = Some []"
| "collect_days f (t # ts) =
     (case f t of
        None \<Rightarrow> None
      | Some d \<Rightarrow> (case collect_days f ts of None \<Rightarrow> None | Some ds \<Rightarrow> Some (d # ds)))"

text \<open>
  What a call of \<^verbatim>\<open>runGBM\<close> ends in: \<^verbatim>\<open>null\<close>, a result, or a thrown \<^verbatim>\<open>TypeError\<close>
  (the only exception the body can raise).
\<close>

datatype outcome = Null | Result SimResult | TypeError

text \<open>
  \<^verbatim>\<open>runGBM(historicalPrices, days, numSimulations)\<close>. The price array may be absent
  (\<open>None\<close>: the guard \<^verbatim>\<open>!historicalPrices\<close>); \<open>days\<close> and \<open>numSimulations\<close> are natural
  numbers, passed explicitly (the defaults \<open>20\<close> and \<open>500\<close> are what a caller passes when
  it omits them). The result comes with the tape the call leaves; \<open>None\<close> is a tape that ran
  out.
\<close>

definition runGBM ::
  "jsval list option \<Rightarrow> nat \<Rightarrow> nat \<Rightarrow> real list \<Rightarrow> (outcome \<times> real list) option" where
  "runGBM historicalPrices days numSimulations tape =
     (case historicalPrices of
        None \<Rightarrow> Some (Null, tape)
      | Some prices \<Rightarrow>
          if length prices = 0 then Some (Null, tape)
          else
            (case simulate_paths prices days numSimulations tape of
               None \<Rightarrow> None
             | Some (allPaths, tape1) \<Rightarrow>
                 (case minPathIndex allPaths days of
                    None \<Rightarrow> Some (TypeError, tape1)
                  | Some minIndex \<Rightarrow>
                      (case maxPathIndex allPaths days of
                         None \<Rightarrow> Some (TypeError, tape1)
                       | Some maxIndex \<Rightarrow>
                           (case random_indices 30 numSimulations tape1 of
                              None \<Rightarrow> None
                            | Some (randomIndices, tape2) \<Rightarrow>
                                (case collect_days
                                        (dayData allPaths numSimulations minIndex maxIndex
                                           randomIndices)
                                        [0 ..< Suc days] of
                                   None \<Rightarrow> Some (TypeError, tape2)
                                 | Some aggregatedData \<Rightarrow>
                                     (case js_at aggregatedData days of
                                        None \<Rightarrow> Some (TypeError, tape2)
                                      | Some final \<Rightarrow>
                                          Some (Result
                                             \<lparr>data = aggregatedData,
                                              stats =
                                                \<lparr>current = js_nth prices (length prices - 1),
                                                 projectedMedian = median final,
                                                 projectedLow = p5 final,
                                                 projectedHigh = p95 final,
                                                 volatility_percent =
                                                   js_mul (volatility (log_returns prices))
                                                     (Num 100)\<rparr>\<rparr>,
                                           tape2))))))))"

section \<open>Vocabulary of the statements\<close>

text \<open>A finite number, and the real number it carries.\<close>

fun is_finite :: "jsval \<Rightarrow> bool" where
  "is_finite (Num x) = True"
| "is_finite _ = False"


text \<open>
  The draws of a tape that are not \<open>0\<close>: the Gaussian sampler consumes two of them per
  call, whatever zeros precede them.
\<close>

definition nonzero_draws :: "real list \<Rightarrow> nat" where
  "nonzero_draws tape = length (filter (\<lambda>u. u \<noteq> 0) tape)"


text \<open>The day records of a run that ended in a result; none for any other end.\<close>

fun result_data :: "(outcome \<times> real list) option \<Rightarrow> SimDataPoint list" where
  "result_data (Some (Result r, tape)) = data r"
| "result_data _ = []"

section \<open>Properties of the return statistics\<close>

lemma js_nth_map_Num: "i < length p \<Longrightarrow> js_nth (map Num p) i = Num (p ! i)"
  by (simp add: js_nth_def)

lemma log_returns_Num:
  assumes "\<forall>x\<in>set p. 0 < x"
  shows "log_returns (map Num p) = map Num (spec_log_returns p)"
proof (rule nth_equalityI)
  show "length (log_returns (map Num p)) = length (map Num (spec_log_returns p))"
    by (simp add: log_returns_def spec_log_returns_def)
next
  fix i assume "i < length (log_returns (map Num p))"
  then have i: "i + 1 < length p"
    by (simp add: log_returns_def)
  from i assms have pos: "0 < p ! i" "0 < p ! (i + 1)"
    by simp_all
  from i have "[1 ..< length p] ! i = i + 1"
    by simp
  with i have "log_returns (map Num p) ! i
      = Math_log (js_div (js_nth (map Num p) (i + 1)) (js_nth (map Num p) i))"
    by (simp add: log_returns_def)
  also from i pos have "\<dots> = Num (ln (p ! (i + 1) / p ! i))"
    by (simp add: js_nth_map_Num not_less divide_nonneg_pos less_imp_le)
  also from i have "\<dots> = map Num (spec_log_returns p) ! i"
    by (simp add: spec_log_returns_def)
  finally show "log_returns (map Num p) ! i = map Num (spec_log_returns p) ! i" .
qed

lemma foldl_add_Num:
  "foldl (\<lambda>a b. js_add a b) (Num a) (map Num r) = Num (a + sum_list r)"
  by (induction r arbitrary: a) (simp_all add: add.assoc)

lemma foldl_sq_Num:
  "foldl (\<lambda>acc val. js_add acc (Math_pow (js_sub val (Num m)) 2)) (Num a) (map Num r)
     = Num (a + (\<Sum>x\<leftarrow>r. (x - m)\<^sup>2))"
  by (induction r arbitrary: a) (simp_all add: js_sub_def add.assoc)

lemma meanReturn_Num:
  "r \<noteq> [] \<Longrightarrow> meanReturn (map Num r) = Num (spec_mean r)"
  by (simp add: meanReturn_def spec_mean_def foldl_add_Num)

lemma variance_Num:
  assumes "2 \<le> length r"
  shows "variance (map Num r) = Num (spec_variance r)"
proof -
  from assms have ne: "r \<noteq> []" by auto
  from assms have "real (length r) - 1 \<noteq> 0" by simp
  then show ?thesis
    unfolding variance_def meanReturn_Num [OF ne] foldl_sq_Num spec_variance_def
    by (simp add: js_sub_def)
qed

lemma spec_variance_nonneg:
  assumes "2 \<le> length r"
  shows "0 \<le> spec_variance r"
proof -
  have "0 \<le> (\<Sum>x\<leftarrow>r. (x - spec_mean r)\<^sup>2)"
    by (rule sum_list_nonneg) auto
  moreover from assms have "0 < real (length r) - 1" by simp
  ultimately show ?thesis
    by (simp add: spec_variance_def)
qed

lemma volatility_Num:
  "2 \<le> length r \<Longrightarrow> volatility (map Num r) = Num (sqrt (spec_variance r))"
  using spec_variance_nonneg [of r] by (simp add: volatility_def variance_Num)

lemma drift_Num:
  assumes "2 \<le> length r"
  shows "drift (map Num r) = Num (spec_mean r - spec_variance r / 2)"
proof -
  from assms have "r \<noteq> []" by auto
  with assms show ?thesis
    by (simp add: drift_def variance_Num meanReturn_Num js_sub_def)
qed

lemma length_spec_log_returns: "length (spec_log_returns p) = length p - 1"
  by (simp add: spec_log_returns_def)

section \<open>Rounding and the percentile index\<close>

lemma round_half_even_bounds:
  "p - 2 ^ s \<le> round_half_even p s * 2 ^ s \<and> round_half_even p s * 2 ^ s \<le> p + 2 ^ s"
proof -
  define d :: int where "d = 2 ^ s"
  define x where "x = p div d * d"
  define r where "r = p mod d"
  have d: "0 < d" by (simp add: d_def)
  have eq: "p = x + r" unfolding x_def r_def by (rule div_mult_mod_eq [symmetric])
  have m: "0 \<le> r" "r < d" using d by (simp_all add: r_def)
  have c: "round_half_even p s = p div d \<or> round_half_even p s = p div d + 1"
    by (simp add: round_half_even_def Let_def d_def)
  then have "round_half_even p s * d = x \<or> round_half_even p s * d = x + d"
    by (auto simp: x_def algebra_simps)
  with eq m show ?thesis
    unfolding d_def [symmetric] by auto
qed

lemma round53_bounds:
  assumes "0 \<le> p"
  shows "(2 ^ 52 - 1) * p \<le> 2 ^ 52 * round53 p \<and> 2 ^ 52 * round53 p \<le> (2 ^ 52 + 1) * p"
proof (cases "bitlen p \<le> 53")
  case True
  with assms show ?thesis by (simp add: round53_def algebra_simps)
next
  case False
  define s where "s = nat (bitlen p - 53)"
  from False have pos: "0 < p"
    by (metis bitlen_eq_zero_iff not_le zero_le_numeral)
  from False have s: "nat (bitlen p - 1) = s + 52" by (simp add: s_def)
  from bitlen_bounds [OF pos] s have low: "2 ^ (s + 52) \<le> p" by simp
  have r: "round53 p = round_half_even p s * 2 ^ s"
    using False by (simp add: round53_def s_def)
  from round_half_even_bounds [of p s] low show ?thesis
    unfolding r by (simp add: power_add algebra_simps)
qed

lemma int_div_less:
  assumes "0 < (d::int)" and "a < n * d"
  shows "a div d < n"
proof -
  from assms have "real_of_int a / real_of_int d < real_of_int n"
    by (simp add: pos_divide_less_eq flip: of_int_mult)
  then have "\<lfloor>real_of_int a / real_of_int d\<rfloor> < n"
    by (simp add: floor_less_iff)
  then show ?thesis
    by (simp add: floor_divide_of_int_eq)
qed


lemma round53_nonneg: "0 \<le> p \<Longrightarrow> 0 \<le> round53 p"
  using round53_bounds [of p] by simp

lemma percentile_index_less:
  assumes "1 \<le> n" and "0 \<le> m" and "(2 ^ 52 + 1) * m < 2 ^ 52 * 2 ^ k"
  shows "percentile_index n (m, k) < n"
proof -
  let ?p = "int n * m"
  from assms(2) have p: "0 \<le> ?p" by simp
  from round53_bounds [OF p] have "2 ^ 52 * round53 ?p \<le> int n * ((2 ^ 52 + 1) * m)"
    by (simp add: algebra_simps)
  also from assms(1,3) have "\<dots> < int n * (2 ^ 52 * 2 ^ k)"
    by (intro mult_strict_left_mono) simp_all
  finally have "round53 ?p < int n * 2 ^ k"
    by simp
  then have "round53 ?p div 2 ^ k < int n"
    by (intro int_div_less) simp_all
  with round53_nonneg [OF p] show ?thesis
    by (simp add: percentile_index_def nat_less_iff pos_imp_zdiv_nonneg_iff)
qed


lemma percentile_index_bounds:
  assumes "1 \<le> n"
  shows "percentile_index n double_0_05 < n" "percentile_index n double_0_25 < n"
    "percentile_index n double_0_50 < n" "percentile_index n double_0_75 < n"
    "percentile_index n double_0_95 < n"
  using assms
  by (simp_all add: double_0_05_def double_0_25_def double_0_50_def double_0_75_def
      double_0_95_def percentile_index_less)


section \<open>Properties of the sort\<close>

lemma is_finite_iff: "is_finite v \<longleftrightarrow> (\<exists>x. v = Num x)"
  by (cases v) simp_all

lemma set_insert_by: "set (insert_by c x xs) = insert x (set xs)"
  by (induction xs) auto

lemma length_insert_by: "length (insert_by c x xs) = Suc (length xs)"
  by (induction xs) auto

lemma set_sort_by: "set (sort_by c xs) = set xs"
  by (induction xs) (simp_all add: sort_by_def set_insert_by)

lemma length_sort_by: "length (sort_by c xs) = length xs"
  by (induction xs) (simp_all add: sort_by_def length_insert_by)

lemma set_js_sort: "set (js_sort c xs) = set xs"
  by (auto simp: js_sort_def set_sort_by)

lemma length_js_sort: "length (js_sort c xs) = length xs"
  using sum_length_filter_compl [of "\<lambda>x. x \<noteq> Undefined" xs]
  by (simp add: js_sort_def length_sort_by)








section \<open>The sampler and the path loop\<close>

lemma redraw_nonzero: "u \<noteq> 0 \<Longrightarrow> redraw u tape = Some (u, tape)"
  by (cases tape) simp_all

lemma redraw_zeros: "u \<noteq> 0 \<Longrightarrow> redraw 0 (replicate i 0 @ u # rest) = Some (u, rest)"
  by (induction i) (simp_all add: redraw_nonzero)

lemma redraw_props:
  "redraw u0 tape = Some (u, rest) \<Longrightarrow> u \<noteq> 0 \<and> (u = u0 \<or> u \<in> set tape) \<and> set rest \<subseteq> set tape"
proof (induction u0 tape rule: redraw.induct)
  case (1 u0)
  then show ?case by (simp split: if_splits)
next
  case (2 u0 x tape)
  show ?case
  proof (cases "u0 = 0")
    case True
    with 2 have "u \<noteq> 0 \<and> (u = x \<or> u \<in> set tape) \<and> set rest \<subseteq> set tape" by simp
    then show ?thesis by auto
  next
    case False
    with "2.prems" show ?thesis by simp
  qed
qed

lemma redraw_Some:
  assumes "0 < nonzero_draws tape"
  shows "\<exists>u rest. redraw 0 tape = Some (u, rest) \<and> nonzero_draws rest = nonzero_draws tape - 1"
  using assms
proof (induction tape)
  case Nil
  then show ?case by (simp add: nonzero_draws_def)
next
  case (Cons x tape)
  show ?case
  proof (cases "x = 0")
    case True
    with Cons.prems have "0 < nonzero_draws tape" by (simp add: nonzero_draws_def)
    from Cons.IH [OF this] True show ?thesis
      by (simp add: nonzero_draws_def)
  next
    case False
    then show ?thesis
      by (simp add: redraw_nonzero nonzero_draws_def)
  qed
qed

lemma gaussian_finite:
  assumes "0 < u" "u < 1"
  shows "js_mul (Math_sqrt (js_mul (Num (- 2)) (Math_log (Num u))))
           (Math_cos (js_mul (js_mul (Num 2) Math_PI) (Num v)))
         = Num (sqrt (- 2 * ln u) * cos (2 * pi * v))"
proof -
  from assms have "ln u < 0" by simp
  then have "\<not> - 2 * ln u < 0" by simp
  with assms show ?thesis
    by (simp add: Math_PI_def)
qed

lemma generateGaussian_Some:
  assumes "2 \<le> nonzero_draws tape"
  shows "\<exists>Z rest. generateGaussian tape = Some (Z, rest)
           \<and> nonzero_draws rest = nonzero_draws tape - 2"
proof -
  from assms have "0 < nonzero_draws tape" by simp
  from redraw_Some [OF this] obtain u tape1 where
    u: "redraw 0 tape = Some (u, tape1)" "nonzero_draws tape1 = nonzero_draws tape - 1"
    by blast
  from assms u(2) have "0 < nonzero_draws tape1" by simp
  from redraw_Some [OF this] obtain v tape2 where
    v: "redraw 0 tape1 = Some (v, tape2)" "nonzero_draws tape2 = nonzero_draws tape1 - 1"
    by blast
  from u v show ?thesis
    by (simp add: generateGaussian_def)
qed

lemma generateGaussian_props:
  assumes "generateGaussian tape = Some (Z, rest)"
  shows "set rest \<subseteq> set tape"
    and "(\<forall>u\<in>set tape. 0 \<le> u \<and> u < 1) \<Longrightarrow> is_finite Z"
proof -
  from assms obtain u tape1 v where
    u: "redraw 0 tape = Some (u, tape1)" and v: "redraw 0 tape1 = Some (v, rest)"
    and Z: "Z = js_mul (Math_sqrt (js_mul (Num (- 2)) (Math_log (Num u))))
           (Math_cos (js_mul (js_mul (Num 2) Math_PI) (Num v)))"
    by (auto simp: generateGaussian_def split: option.splits)
  from redraw_props [OF u] have pu: "u \<noteq> 0" "u \<in> set tape" "set tape1 \<subseteq> set tape" by auto
  from redraw_props [OF v] have pv: "set rest \<subseteq> set tape1" by auto
  from pu pv show "set rest \<subseteq> set tape" by blast
  assume "\<forall>u\<in>set tape. 0 \<le> u \<and> u < 1"
  with pu have "0 < u" "u < 1" by force+
  then show "is_finite Z" unfolding Z gaussian_finite [OF \<open>0 < u\<close> \<open>u < 1\<close>] by simp
qed

lemma js_add_NaN: "js_add NaN v = NaN"
  by (cases v) simp_all

lemma js_mul_NaN: "js_mul v NaN = NaN"
  by (cases v) simp_all


lemma path_steps_Some:
  assumes "2 * k \<le> nonzero_draws tape"
  shows "\<exists>steps rest. path_steps d v k c tape = Some (steps, rest)
           \<and> nonzero_draws rest = nonzero_draws tape - 2 * k"
  using assms
proof (induction k arbitrary: c tape)
  case 0
  show ?case by simp
next
  case (Suc k)
  then have "2 \<le> nonzero_draws tape" by simp
  from generateGaussian_Some [OF this] obtain Z tape1 where
    g: "generateGaussian tape = Some (Z, tape1)"
      "nonzero_draws tape1 = nonzero_draws tape - 2"
    by blast
  define c' where "c' = js_mul c (Math_exp (js_add d (js_mul v Z)))"
  from Suc.prems g(2) have "2 * k \<le> nonzero_draws tape1" by simp
  from Suc.IH [OF this, of c']
  obtain steps rest where
    r: "path_steps d v k c' tape1 = Some (steps, rest)"
      "nonzero_draws rest = nonzero_draws tape1 - 2 * k"
    by blast
  have "path_steps d v (Suc k) c tape = Some (c' # steps, rest)"
    using g(1) r(1) by (simp add: Let_def c'_def)
  moreover have "nonzero_draws rest = nonzero_draws tape - 2 * Suc k"
    using r(2) g(2) by simp
  ultimately show ?case by blast
qed

lemma path_steps_shape:
  "path_steps d v k c tape = Some (steps, rest) \<Longrightarrow> length steps = k \<and> set rest \<subseteq> set tape"
proof (induction k arbitrary: c tape steps)
  case 0
  then show ?case by simp
next
  case (Suc k)
  from Suc.prems obtain Z tape1 steps' where
    g: "generateGaussian tape = Some (Z, tape1)"
    and r: "path_steps d v k (js_mul c (Math_exp (js_add d (js_mul v Z)))) tape1 = Some (steps', rest)"
    and s: "steps = js_mul c (Math_exp (js_add d (js_mul v Z))) # steps'"
    by (auto simp: Let_def split: option.splits)
  from Suc.IH [OF r] generateGaussian_props(1) [OF g] s show ?case by auto
qed


lemma path_steps_NaN:
  "path_steps NaN v k c tape = Some (steps, rest) \<Longrightarrow> \<forall>x\<in>set steps. x = NaN"
proof (induction k arbitrary: c tape steps)
  case 0
  then show ?case by simp
next
  case (Suc k)
  from Suc.prems obtain Z tape1 steps' where
    r: "path_steps NaN v k (js_mul c (Math_exp (js_add NaN (js_mul v Z)))) tape1 = Some (steps', rest)"
    and s: "steps = js_mul c (Math_exp (js_add NaN (js_mul v Z))) # steps'"
    by (auto simp: Let_def split: option.splits)
  from Suc.IH [OF r] s show ?case by (simp add: js_add_NaN js_mul_NaN)
qed

section \<open>The ensemble of paths\<close>

lemma gen_paths_Some:
  assumes "2 * days * k \<le> nonzero_draws tape"
  shows "\<exists>paths rest. gen_paths d v lp days k tape = Some (paths, rest)
           \<and> nonzero_draws rest = nonzero_draws tape - 2 * days * k"
  using assms
proof (induction k arbitrary: tape)
  case 0
  show ?case by simp
next
  case (Suc k)
  then have "2 * days \<le> nonzero_draws tape" by simp
  from path_steps_Some [OF this, of d v lp] obtain steps tape1 where
    s: "path_steps d v days lp tape = Some (steps, tape1)"
      "nonzero_draws tape1 = nonzero_draws tape - 2 * days"
    by blast
  from Suc.prems s(2) have "2 * days * k \<le> nonzero_draws tape1" by simp
  from Suc.IH [OF this] obtain paths rest where
    r: "gen_paths d v lp days k tape1 = Some (paths, rest)"
      "nonzero_draws rest = nonzero_draws tape1 - 2 * days * k"
    by blast
  have "gen_paths d v lp days (Suc k) tape = Some ((lp # steps) # paths, rest)"
    using s(1) r(1) by simp
  moreover have "nonzero_draws rest = nonzero_draws tape - 2 * days * Suc k"
    using r(2) s(2) by simp
  ultimately show ?case by blast
qed

lemma gen_paths_shape:
  "gen_paths d v lp days k tape = Some (paths, rest) \<Longrightarrow>
     length paths = k \<and> set rest \<subseteq> set tape
     \<and> (\<forall>p\<in>set paths. length p = Suc days \<and> js_nth p 0 = lp)"
proof (induction k arbitrary: tape paths)
  case 0
  then show ?case by simp
next
  case (Suc k)
  from Suc.prems obtain steps tape1 paths' where
    s: "path_steps d v days lp tape = Some (steps, tape1)"
    and r: "gen_paths d v lp days k tape1 = Some (paths', rest)"
    and p: "paths = (lp # steps) # paths'"
    by (auto split: option.splits)
  from path_steps_shape [OF s] Suc.IH [OF r] p show ?case
    by (auto simp: js_nth_def)
qed


lemma gen_paths_NaN:
  assumes "gen_paths NaN v lp days k tape = Some (paths, rest)"
  shows "\<forall>p\<in>set paths. \<forall>t. 1 \<le> t \<and> t \<le> days \<longrightarrow> js_nth p t = NaN"
  using assms
proof (induction k arbitrary: tape paths)
  case 0
  then show ?case by simp
next
  case (Suc k)
  from Suc.prems(1) obtain steps tape1 paths' where
    s: "path_steps NaN v days lp tape = Some (steps, tape1)"
    and r: "gen_paths NaN v lp days k tape1 = Some (paths', rest)"
    and p: "paths = (lp # steps) # paths'"
    by (auto split: option.splits)
  from path_steps_shape [OF s] have len: "length steps = days" by simp
  have "js_nth (lp # steps) t = NaN" if "1 \<le> t \<and> t \<le> days" for t
  proof -
    from that len have "t - 1 < length steps" by auto
    then have "steps ! (t - 1) \<in> set steps" by (rule nth_mem)
    with path_steps_NaN [OF s] have "steps ! (t - 1) = NaN" by blast
    with that len show ?thesis by (cases t) (simp_all add: js_nth_def)
  qed
  with Suc.IH [OF r] p show ?case by simp
qed

subsection \<open>The two outlier indices\<close>

lemma path_index_base:
  "map (\<lambda>(i, path). \<lparr>index = i, finalPrice = js_nth path days\<rparr>) (enumerate 0 allPaths)
     = map (\<lambda>i. \<lparr>index = i, finalPrice = js_nth (allPaths ! i) days\<rparr>) [0 ..< length allPaths]"
  by (rule nth_equalityI) (simp_all add: nth_enumerate_eq)

lemma sortedPathIndices_set:
  "e \<in> set (sortedPathIndices allPaths days) \<longleftrightarrow>
     (\<exists>i<length allPaths. e = \<lparr>index = i, finalPrice = js_nth (allPaths ! i) days\<rparr>)"
  unfolding sortedPathIndices_def set_sort_by path_index_base by auto

lemma length_sortedPathIndices: "length (sortedPathIndices allPaths days) = length allPaths"
  by (simp add: sortedPathIndices_def length_sort_by)

lemma minPathIndex_Some:
  assumes "allPaths \<noteq> []"
  shows "\<exists>mn. minPathIndex allPaths days = Some mn \<and> mn < length allPaths"
proof -
  from assms have "sortedPathIndices allPaths days \<noteq> []"
    using length_sortedPathIndices [of allPaths days] by auto
  then obtain first others where s: "sortedPathIndices allPaths days = first # others"
    by (cases "sortedPathIndices allPaths days") auto
  then have "first \<in> set (sortedPathIndices allPaths days)" by simp
  then have "index first < length allPaths"
    unfolding sortedPathIndices_set by auto
  with s show ?thesis by (simp add: minPathIndex_def)
qed

lemma maxPathIndex_Some:
  assumes "allPaths \<noteq> []"
  shows "\<exists>mx. maxPathIndex allPaths days = Some mx \<and> mx < length allPaths"
proof -
  from assms have ne: "sortedPathIndices allPaths days \<noteq> []"
    using length_sortedPathIndices [of allPaths days] by auto
  then obtain first others where s: "sortedPathIndices allPaths days = first # others"
    by (cases "sortedPathIndices allPaths days") auto
  from ne have "last (sortedPathIndices allPaths days) \<in> set (sortedPathIndices allPaths days)"
    by (rule last_in_set)
  then have "index (last (sortedPathIndices allPaths days)) < length allPaths"
    unfolding sortedPathIndices_set by auto
  with s show ?thesis by (simp add: maxPathIndex_def)
qed



section \<open>The aggregation loop\<close>

lemma random_indices_eq:
  assumes "k \<le> length tape"
  shows "random_indices k n tape
           = Some (map (\<lambda>x. Math_floor (js_mul (Num x) (Num (real n)))) (take k tape), drop k tape)"
  using assms
proof (induction k arbitrary: tape)
  case 0
  show ?case by simp
next
  case (Suc k)
  then obtain x tape1 where t: "tape = x # tape1" by (cases tape) auto
  with Suc.prems have "k \<le> length tape1" by simp
  from Suc.IH [OF this] t show ?case by simp
qed

lemma array_index_floor:
  assumes "0 \<le> x" "x < 1" "1 \<le> n"
  shows "\<exists>j<n. array_index (Math_floor (js_mul (Num x) (Num (real n)))) = Some j"
proof -
  from assms have nn: "0 \<le> x * real n" by simp
  from assms have "x * real n < real n" by simp
  then have "\<lfloor>x * real n\<rfloor> < int n" by (simp add: floor_less_iff)
  moreover from nn have "0 \<le> \<lfloor>x * real n\<rfloor>" by simp
  ultimately have "nat \<lfloor>x * real n\<rfloor> < n" by linarith
  with nn show ?thesis by simp
qed

lemma nonzero_draws_le_length: "nonzero_draws tape \<le> length tape"
  by (simp add: nonzero_draws_def)

lemma sim_values_Some:
  assumes "\<forall>v\<in>set idxs. \<exists>j<length allPaths. array_index v = Some j"
  shows "sim_values allPaths idxs t
           = Some (map (\<lambda>v. js_nth (allPaths ! the (array_index v)) t) idxs)"
  using assms
proof (induction idxs)
  case Nil
  show ?case by simp
next
  case (Cons v idxs)
  then obtain j where j: "j < length allPaths" "array_index v = Some j" by auto
  from Cons have "sim_values allPaths idxs t
           = Some (map (\<lambda>v. js_nth (allPaths ! the (array_index v)) t) idxs)" by simp
  with j show ?case by (simp add: path_value_def js_at_def)
qed

lemma collect_days_Some:
  assumes "\<forall>t\<in>set ts. f t = Some (g t)"
  shows "collect_days f ts = Some (map g ts)"
  using assms by (induction ts) simp_all

lemma dayData_Some:
  assumes "mn < length allPaths" "mx < length allPaths"
    and "\<forall>v\<in>set idxs. \<exists>j<length allPaths. array_index v = Some j"
  shows "\<exists>d. dayData allPaths n mn mx idxs t = Some d"
  using assms(1,2) sim_values_Some [OF assms(3), of t]
  by (simp add: dayData_def Let_def path_value_def js_at_def)

lemma dayData_fields:
  assumes "dayData allPaths n mn mx idxs t = Some d"
  shows "day d = t"
    and "p5 d = js_nth (js_sort (\<lambda>a b. js_sub a b) (map (\<lambda>path. js_nth path t) allPaths))
                  (percentile_index n double_0_05)"
    and "fst (innerRange d) = js_nth (js_sort (\<lambda>a b. js_sub a b) (map (\<lambda>path. js_nth path t) allPaths))
                  (percentile_index n double_0_25)"
    and "median d = js_nth (js_sort (\<lambda>a b. js_sub a b) (map (\<lambda>path. js_nth path t) allPaths))
                  (percentile_index n double_0_50)"
    and "snd (innerRange d) = js_nth (js_sort (\<lambda>a b. js_sub a b) (map (\<lambda>path. js_nth path t) allPaths))
                  (percentile_index n double_0_75)"
    and "p95 d = js_nth (js_sort (\<lambda>a b. js_sub a b) (map (\<lambda>path. js_nth path t) allPaths))
                  (percentile_index n double_0_95)"
    and "range_band d = (p5 d, p95 d)"
    and "path_value allPaths (Some mn) t = Some (outlierMin d)"
    and "path_value allPaths (Some mx) t = Some (outlierMax d)"
    and "sim_values allPaths idxs t = Some (sim d)"
  using assms by (auto simp: dayData_def Let_def split: option.splits)

section \<open>The shape of a run\<close>

lemma runGBM_Result:
  assumes ne: "prices \<noteq> []" and n: "1 \<le> n"
    and draws: "2 * days * n + 30 \<le> nonzero_draws tape"
    and unit: "\<forall>u\<in>set tape. 0 \<le> u \<and> u < 1"
  obtains allPaths tape1 mn mx idxs tape2 rows where
    "simulate_paths prices days n tape = Some (allPaths, tape1)"
    "length allPaths = n"
    "minPathIndex allPaths days = Some mn" "mn < n"
    "maxPathIndex allPaths days = Some mx" "mx < n"
    "random_indices 30 n tape1 = Some (idxs, tape2)" "tape2 = drop 30 tape1"
    "30 \<le> length tape1"
    "idxs = map (\<lambda>x. Math_floor (js_mul (Num x) (Num (real n)))) (take 30 tape1)"
    "\<forall>v\<in>set idxs. \<exists>j<n. array_index v = Some j"
    "length rows = Suc days"
    "\<forall>t\<le>days. dayData allPaths n mn mx idxs t = Some (rows ! t)"
    "runGBM (Some prices) days n tape
       = Some (Result \<lparr>data = rows,
                       stats = \<lparr>current = js_nth prices (length prices - 1),
                                projectedMedian = median (rows ! days),
                                projectedLow = p5 (rows ! days),
                                projectedHigh = p95 (rows ! days),
                                volatility_percent =
                                  js_mul (volatility (log_returns prices)) (Num 100)\<rparr>\<rparr>,
               tape2)"
proof -
  let ?d = "drift (log_returns prices)" and ?v = "volatility (log_returns prices)"
  let ?lp = "js_nth prices (length prices - 1)"
  from draws have "2 * days * n \<le> nonzero_draws tape" by simp
  from gen_paths_Some [OF this, of ?d ?v ?lp] obtain allPaths tape1 where
    g: "gen_paths ?d ?v ?lp days n tape = Some (allPaths, tape1)"
    and nz: "nonzero_draws tape1 = nonzero_draws tape - 2 * days * n"
    by blast
  have sp: "simulate_paths prices days n tape = Some (allPaths, tape1)"
    using g by (simp add: simulate_paths_def)
  from gen_paths_shape [OF g] have len: "length allPaths = n" and sub: "set tape1 \<subseteq> set tape"
    by simp_all
  from len n have nonempty: "allPaths \<noteq> []" by auto
  from minPathIndex_Some [OF nonempty, of days] len obtain mn where
    mn: "minPathIndex allPaths days = Some mn" "mn < n" by auto
  from maxPathIndex_Some [OF nonempty, of days] len obtain mx where
    mx: "maxPathIndex allPaths days = Some mx" "mx < n" by auto
  from draws nz nonzero_draws_le_length [of tape1] have l30: "30 \<le> length tape1" by simp
  define idxs where "idxs = map (\<lambda>x. Math_floor (js_mul (Num x) (Num (real n)))) (take 30 tape1)"
  have ri: "random_indices 30 n tape1 = Some (idxs, drop 30 tape1)"
    unfolding idxs_def by (rule random_indices_eq [OF l30])
  have idx: "\<forall>v\<in>set idxs. \<exists>j<n. array_index v = Some j"
  proof
    fix v assume "v \<in> set idxs"
    then obtain x where x: "x \<in> set (take 30 tape1)"
      and v: "v = Math_floor (js_mul (Num x) (Num (real n)))"
      by (auto simp: idxs_def)
    from x have "x \<in> set tape1" by (rule in_set_takeD)
    with sub unit have "0 \<le> x" "x < 1" by auto
    from array_index_floor [OF this n] v show "\<exists>j<n. array_index v = Some j" by simp
  qed
  let ?f = "dayData allPaths n mn mx idxs"
  define rows where "rows = map (\<lambda>t. the (?f t)) [0 ..< Suc days]"
  have dd: "?f t = Some (the (?f t))" for t
    using dayData_Some [of mn allPaths mx idxs n t] mn(2) mx(2) idx len by auto
  then have "\<forall>t\<in>set [0 ..< Suc days]. ?f t = Some (the (?f t))" by simp
  then have cd: "collect_days ?f [0 ..< Suc days] = Some rows"
    unfolding rows_def by (rule collect_days_Some)
  have lr: "length rows = Suc days" by (simp add: rows_def)
  have rt: "\<forall>t\<le>days. ?f t = Some (rows ! t)"
  proof (intro allI impI)
    fix t assume "t \<le> days"
    then have "t < Suc days" by simp
    then have "rows ! t = the (?f t)"
      unfolding rows_def by (simp only: nth_map_upt add_0 length_upt diff_zero)
    with dd [of t] show "?f t = Some (rows ! t)" by simp
  qed
  have at: "js_at rows days = Some (rows ! days)"
    using lr by (simp add: js_at_def)
  from ne have ne0: "length prices \<noteq> 0" by simp
  have run: "runGBM (Some prices) days n tape
       = Some (Result \<lparr>data = rows,
                       stats = \<lparr>current = js_nth prices (length prices - 1),
                                projectedMedian = median (rows ! days),
                                projectedLow = p5 (rows ! days),
                                projectedHigh = p95 (rows ! days),
                                volatility_percent =
                                  js_mul (volatility (log_returns prices)) (Num 100)\<rparr>\<rparr>,
               drop 30 tape1)"
    unfolding runGBM_def
    by (simp only: option.case prod.case ne0 if_False sp mn(1) mx(1) ri cd at)
  from sp len mn mx ri refl l30 idxs_def idx lr rt run show thesis
    by (rule that)
qed

lemma array_index_floor_eq:
  assumes "0 \<le> x"
  shows "array_index (Math_floor (js_mul (Num x) (Num (real n)))) = Some (nat \<lfloor>x * real n\<rfloor>)"
proof -
  from assms have "0 \<le> x * real n" by simp
  then show ?thesis by simp
qed

lemma runGBM_returns:
  assumes "prices \<noteq> []" "1 \<le> n" "2 * days * n + 30 \<le> nonzero_draws tape"
    "\<forall>u\<in>set tape. 0 \<le> u \<and> u < 1"
  shows "\<exists>r tape'. runGBM (Some prices) days n tape = Some (Result r, tape')"
  using runGBM_Result [OF assms] by metis

lemma runGBM_data:
  assumes hyps: "prices \<noteq> []" "1 \<le> n" "2 * days * n + 30 \<le> nonzero_draws tape"
    "\<forall>u\<in>set tape. 0 \<le> u \<and> u < 1"
    and run: "runGBM (Some prices) days n tape = Some (Result r, tape')"
  obtains allPaths tape1 mn mx idxs where
    "simulate_paths prices days n tape = Some (allPaths, tape1)"
    "length allPaths = n"
    "minPathIndex allPaths days = Some mn" "mn < n"
    "maxPathIndex allPaths days = Some mx" "mx < n"
    "30 \<le> length tape1"
    "idxs = map (\<lambda>x. Math_floor (js_mul (Num x) (Num (real n)))) (take 30 tape1)"
    "\<forall>v\<in>set idxs. \<exists>j<n. array_index v = Some j"
    "tape' = drop 30 tape1"
    "length (data r) = Suc days"
    "\<forall>t\<le>days. dayData allPaths n mn mx idxs t = Some (data r ! t)"
    "current (stats r) = js_nth prices (length prices - 1)"
proof -
  from runGBM_Result [OF hyps] obtain allPaths tape1 mn mx idxs tape2 rows where
    f: "simulate_paths prices days n tape = Some (allPaths, tape1)"
    "length allPaths = n"
    "minPathIndex allPaths days = Some mn" "mn < n"
    "maxPathIndex allPaths days = Some mx" "mx < n"
    "random_indices 30 n tape1 = Some (idxs, tape2)" "tape2 = drop 30 tape1"
    "30 \<le> length tape1"
    "idxs = map (\<lambda>x. Math_floor (js_mul (Num x) (Num (real n)))) (take 30 tape1)"
    "\<forall>v\<in>set idxs. \<exists>j<n. array_index v = Some j"
    "length rows = Suc days"
    "\<forall>t\<le>days. dayData allPaths n mn mx idxs t = Some (rows ! t)"
    and eq: "runGBM (Some prices) days n tape
       = Some (Result \<lparr>data = rows,
                       stats = \<lparr>current = js_nth prices (length prices - 1),
                                projectedMedian = median (rows ! days),
                                projectedLow = p5 (rows ! days),
                                projectedHigh = p95 (rows ! days),
                                volatility_percent =
                                  js_mul (volatility (log_returns prices)) (Num 100)\<rparr>\<rparr>,
               tape2)"
    by blast
  from run eq have r: "r = \<lparr>data = rows,
                       stats = \<lparr>current = js_nth prices (length prices - 1),
                                projectedMedian = median (rows ! days),
                                projectedLow = p5 (rows ! days),
                                projectedHigh = p95 (rows ! days),
                                volatility_percent =
                                  js_mul (volatility (log_returns prices)) (Num 100)\<rparr>\<rparr>"
    and t2: "tape' = tape2"
    by simp_all
  from r have d: "data r = rows" and c: "current (stats r) = js_nth prices (length prices - 1)"
    by simp_all
  from f(1,2,3,4,5,6) f(9) f(10) f(11) show thesis
  proof (rule that)
    show "tape' = drop 30 tape1" using t2 f(8) by simp
    show "length (data r) = Suc days" using d f(12) by simp
    show "\<forall>t\<le>days. dayData allPaths n mn mx idxs t = Some (data r ! t)"
      using d f(13) by simp
    show "current (stats r) = js_nth prices (length prices - 1)" by (rule c)
  qed
qed

section \<open>The fields of a day record\<close>

lemma js_sort_const:
  assumes "\<forall>x\<in>set xs. x = c" and "i < length xs"
  shows "js_nth (js_sort comparefn xs) i = c"
proof -
  from assms(2) have i: "i < length (js_sort comparefn xs)" by (simp add: length_js_sort)
  then have "js_sort comparefn xs ! i \<in> set (js_sort comparefn xs)" by (rule nth_mem)
  with assms(1) have "js_sort comparefn xs ! i = c" by (simp add: set_js_sort)
  with i show ?thesis by (simp add: js_nth_def)
qed

lemma dayData_percentile_const:
  assumes d: "dayData allPaths n mn mx idxs t = Some d"
    and len: "length allPaths = n" and n: "1 \<le> n"
    and c: "\<forall>p\<in>set allPaths. js_nth p t = c"
  shows "p5 d = c" "median d = c" "p95 d = c" "innerRange d = (c, c)"
proof -
  let ?xs = "map (\<lambda>path. js_nth path t) allPaths"
  from c have all: "\<forall>x\<in>set ?xs. x = c" by auto
  have rd: "js_nth (js_sort (\<lambda>a b. js_sub a b) ?xs) i = c" if "i < n" for i
    using that len by (intro js_sort_const [OF all]) simp
  from percentile_index_bounds [OF n] dayData_fields [OF d] rd
  show "p5 d = c" "median d = c" "p95 d = c" by simp_all
  from percentile_index_bounds [OF n] dayData_fields(3,5) [OF d] rd
  have "fst (innerRange d) = c" "snd (innerRange d) = c" by simp_all
  then show "innerRange d = (c, c)" by (simp add: prod_eq_iff)
qed

lemma dayData_outliers:
  assumes d: "dayData allPaths n mn mx idxs t = Some d"
    and "mn < length allPaths" "mx < length allPaths"
  shows "outlierMin d = js_nth (allPaths ! mn) t" "outlierMax d = js_nth (allPaths ! mx) t"
  using dayData_fields(8,9) [OF d] assms(2,3)
  by (simp_all add: path_value_def js_at_def)



lemma drift_degenerate:
  assumes "length prices \<le> 2"
  shows "drift (log_returns prices) = NaN"
proof -
  have short: "length (log_returns prices) \<le> 1"
    using assms by (simp add: log_returns_def)
  show ?thesis
  proof (cases "log_returns prices")
    case Nil
    then show ?thesis
      by (simp add: drift_def meanReturn_def js_sub_def js_add_NaN)
  next
    case (Cons r rs)
    with short have rs: "rs = []" by simp
    have "variance [r] = NaN"
      by (cases r) (simp_all add: variance_def meanReturn_def js_sub_def)
    then have "drift [r] = NaN"
      by (cases "meanReturn [r]") (simp_all add: drift_def js_sub_def)
    with Cons rs show ?thesis by simp
  qed
qed


lemma simulate_paths_gen:
  "simulate_paths prices days n tape
     = gen_paths (drift (log_returns prices)) (volatility (log_returns prices))
         (js_nth prices (length prices - 1)) days n tape"
  by (simp only: simulate_paths_def Let_def)

lemma simulate_paths_shape:
  assumes "simulate_paths prices days n tape = Some (allPaths, tape1)"
  shows "length allPaths = n"
    and "\<forall>p\<in>set allPaths. length p = Suc days"
    and "\<forall>p\<in>set allPaths. js_nth p 0 = js_nth prices (length prices - 1)"
proof -
  from assms have "gen_paths (drift (log_returns prices)) (volatility (log_returns prices))
      (js_nth prices (length prices - 1)) days n tape = Some (allPaths, tape1)"
    by (simp only: simulate_paths_gen)
  from gen_paths_shape [OF this]
  show "length allPaths = n" "\<forall>p\<in>set allPaths. length p = Suc days"
    "\<forall>p\<in>set allPaths. js_nth p 0 = js_nth prices (length prices - 1)"
    by blast+
qed

lemma simulate_paths_degenerate:
  assumes "simulate_paths prices days n tape = Some (allPaths, tape1)"
    and "length prices \<le> 2" and "1 \<le> t" "t \<le> days"
  shows "\<forall>p\<in>set allPaths. js_nth p t = NaN"
proof -
  from assms(1) have "gen_paths NaN (volatility (log_returns prices))
      (js_nth prices (length prices - 1)) days n tape = Some (allPaths, tape1)"
    by (simp only: simulate_paths_gen drift_degenerate [OF assms(2)])
  from gen_paths_NaN [OF this] assms(3,4) show ?thesis by blast
qed



section \<open>Day 0 and the degenerate statistics\<close>

lemma last_price: "prices \<noteq> [] \<Longrightarrow> js_nth prices (length prices - 1) = last prices"
  by (simp add: js_nth_def last_conv_nth)

lemma runGBM_day_zero:
  assumes hyps: "prices \<noteq> []" "1 \<le> n" "2 * days * n + 30 \<le> nonzero_draws tape"
    "\<forall>u\<in>set tape. 0 \<le> u \<and> u < 1"
    and run: "runGBM (Some prices) days n tape = Some (Result r, tape')"
  shows "p5 (data r ! 0) = last prices" "median (data r ! 0) = last prices"
    "p95 (data r ! 0) = last prices" "innerRange (data r ! 0) = (last prices, last prices)"
proof -
  from runGBM_data [OF hyps run] obtain allPaths tape1 mn mx idxs where
    sp: "simulate_paths prices days n tape = Some (allPaths, tape1)"
    and len: "length allPaths = n"
    and rows: "\<forall>t\<le>days. dayData allPaths n mn mx idxs t = Some (data r ! t)"
    by metis
  from rows have d0: "dayData allPaths n mn mx idxs 0 = Some (data r ! 0)" by simp
  from simulate_paths_shape(3) [OF sp] last_price [OF hyps(1)]
  have start: "\<forall>p\<in>set allPaths. js_nth p 0 = last prices" by simp
  from dayData_percentile_const [OF d0 len hyps(2) start]
  show "p5 (data r ! 0) = last prices" "median (data r ! 0) = last prices"
    "p95 (data r ! 0) = last prices" "innerRange (data r ! 0) = (last prices, last prices)"
    by simp_all
qed

lemma runGBM_degenerate_day:
  assumes hyps: "prices \<noteq> []" "1 \<le> n" "2 * days * n + 30 \<le> nonzero_draws tape"
    "\<forall>u\<in>set tape. 0 \<le> u \<and> u < 1"
    and run: "runGBM (Some prices) days n tape = Some (Result r, tape')"
    and short: "length prices \<le> 2" and t: "1 \<le> t" "t \<le> days"
  shows "p5 (data r ! t) = NaN" "median (data r ! t) = NaN" "p95 (data r ! t) = NaN"
    "innerRange (data r ! t) = (NaN, NaN)"
    "outlierMin (data r ! t) = NaN" "outlierMax (data r ! t) = NaN"
proof -
  from runGBM_data [OF hyps run] obtain allPaths tape1 mn mx idxs where
    sp: "simulate_paths prices days n tape = Some (allPaths, tape1)"
    and len: "length allPaths = n" and mn: "mn < n" and mx: "mx < n"
    and rows: "\<forall>t\<le>days. dayData allPaths n mn mx idxs t = Some (data r ! t)"
    by metis
  from rows t(2) have dt: "dayData allPaths n mn mx idxs t = Some (data r ! t)" by simp
  from simulate_paths_degenerate [OF sp short t]
  have nan: "\<forall>p\<in>set allPaths. js_nth p t = NaN" .
  from dayData_percentile_const [OF dt len hyps(2) nan]
  show "p5 (data r ! t) = NaN" "median (data r ! t) = NaN" "p95 (data r ! t) = NaN"
    "innerRange (data r ! t) = (NaN, NaN)"
    by simp_all
  from mn mx len nan have "js_nth (allPaths ! mn) t = NaN" "js_nth (allPaths ! mx) t = NaN"
    by simp_all
  with dayData_outliers [OF dt] mn mx len
  show "outlierMin (data r ! t) = NaN" "outlierMax (data r ! t) = NaN" by simp_all
qed

lemma nonzero_draws_replicate: "x \<noteq> 0 \<Longrightarrow> nonzero_draws (replicate k x) = k"
  by (simp add: nonzero_draws_def)

section \<open>The claims\<close>

text \<open>
  C1: for a series of at least three positive prices the engine's log returns are
  \<open>ln (p[i+1] / p[i])\<close>, the mean is their arithmetic average, the variance is the
  sample variance with divisor \<open>n - 1\<close>, the volatility is its square root and the
  drift is the mean minus half the variance.
\<close>

theorem C1_return_statistics:
  assumes "3 \<le> length p" and "\<forall>x\<in>set p. 0 < x"
  shows "log_returns (map Num p) = map Num (spec_log_returns p)
    \<and> meanReturn (log_returns (map Num p)) = Num (spec_mean (spec_log_returns p))
    \<and> variance (log_returns (map Num p)) = Num (spec_variance (spec_log_returns p))
    \<and> volatility (log_returns (map Num p)) = Num (sqrt (spec_variance (spec_log_returns p)))
    \<and> drift (log_returns (map Num p))
        = Num (spec_mean (spec_log_returns p) - spec_variance (spec_log_returns p) / 2)"
proof -
  from assms(1) have len: "2 \<le> length (spec_log_returns p)"
    by (simp add: length_spec_log_returns)
  then have ne: "spec_log_returns p \<noteq> []" by auto
  show ?thesis
    by (simp add: log_returns_Num [OF assms(2)] meanReturn_Num [OF ne] variance_Num [OF len]
        volatility_Num [OF len] drift_Num [OF len])
qed

theorem C1_return_statistics_witness:
  "log_returns (map Num [100, 102, 101]) = map Num (spec_log_returns [100, 102, 101])
    \<and> meanReturn (log_returns (map Num [100, 102, 101]))
        = Num (spec_mean (spec_log_returns [100, 102, 101]))
    \<and> variance (log_returns (map Num [100, 102, 101]))
        = Num (spec_variance (spec_log_returns [100, 102, 101]))
    \<and> volatility (log_returns (map Num [100, 102, 101]))
        = Num (sqrt (spec_variance (spec_log_returns [100, 102, 101])))
    \<and> drift (log_returns (map Num [100, 102, 101]))
        = Num (spec_mean (spec_log_returns [100, 102, 101])
               - spec_variance (spec_log_returns [100, 102, 101]) / 2)"
proof -
  have h1: "3 \<le> length [100, 102, 101 :: real]" by simp
  have h2: "\<forall>x\<in>set [100, 102, 101 :: real]. 0 < x" by simp
  show ?thesis by (rule C1_return_statistics [OF h1 h2])
qed




text \<open>
  C3: for a non-empty price series, a path count of at least 1 and a tape that holds
  the draws the run asks for, \<open>runGBM\<close> returns a result whose sequence of day records
  has exactly \<open>days + 1\<close> entries, with the \<open>day\<close> fields \<open>0, 1, ..., days\<close> in order.
\<close>

theorem C3_day_sequence:
  assumes "prices \<noteq> []" and "1 \<le> n"
    and "2 * days * n + 30 \<le> nonzero_draws tape"
    and "\<forall>u\<in>set tape. 0 \<le> u \<and> u < 1"
  shows "\<exists>r tape'. runGBM (Some prices) days n tape = Some (Result r, tape')
           \<and> length (data r) = days + 1
           \<and> map day (data r) = [0 ..< days + 1]"
proof -
  from runGBM_returns [OF assms] obtain r tape' where
    run: "runGBM (Some prices) days n tape = Some (Result r, tape')" by blast
  from runGBM_data [OF assms run] obtain allPaths mn mx idxs where
    len: "length (data r) = Suc days"
    and rows: "\<forall>t\<le>days. dayData allPaths n mn mx idxs t = Some (data r ! t)"
    by metis
  have "map day (data r) = [0 ..< Suc days]"
  proof (rule nth_equalityI)
    show "length (map day (data r)) = length [0 ..< Suc days]" using len by simp
  next
    fix t assume "t < length (map day (data r))"
    with len have t: "t \<le> days" "t < length (data r)" "t < Suc days" by simp_all
    from rows t(1) have "dayData allPaths n mn mx idxs t = Some (data r ! t)" by simp
    then have "day (data r ! t) = t" by (rule dayData_fields(1))
    with t(2,3) show "map day (data r) ! t = [0 ..< Suc days] ! t"
      by (simp only: nth_map nth_upt add_0)
  qed
  with run len show ?thesis by simp
qed

theorem C3_day_sequence_witness:
  "\<exists>r tape'. runGBM (Some [Num 100, Num 102, Num 101, Num 105, Num 104]) 2 3
                 (replicate 42 (1 / 2)) = Some (Result r, tape')
           \<and> length (data r) = 2 + 1
           \<and> map day (data r) = [0 ..< 2 + 1]"
proof -
  have h1: "[Num 100, Num 102, Num 101, Num 105, Num 104] \<noteq> []" by simp
  have h2: "1 \<le> (3::nat)" by simp
  have h3: "2 * 2 * 3 + 30 \<le> nonzero_draws (replicate 42 (1 / 2))"
    by (simp add: nonzero_draws_def)
  have h4: "\<forall>u\<in>set (replicate 42 (1 / 2 :: real)). 0 \<le> u \<and> u < 1" by simp
  show ?thesis by (rule C3_day_sequence [OF h1 h2 h3 h4])
qed

text \<open>
  C4: under the same conditions the day-0 record's median, 5th and 95th percentile,
  \<open>outlierMin\<close> and \<open>outlierMax\<close> are the last historical price, and so is
  \<open>stats.current\<close>.
\<close>

theorem C4_day_zero_is_last_price:
  assumes "prices \<noteq> []" and "1 \<le> n"
    and "2 * days * n + 30 \<le> nonzero_draws tape"
    and "\<forall>u\<in>set tape. 0 \<le> u \<and> u < 1"
  shows "\<exists>r tape'. runGBM (Some prices) days n tape = Some (Result r, tape')
           \<and> median (data r ! 0) = last prices
           \<and> p5 (data r ! 0) = last prices
           \<and> p95 (data r ! 0) = last prices
           \<and> outlierMin (data r ! 0) = last prices
           \<and> outlierMax (data r ! 0) = last prices
           \<and> current (stats r) = last prices"
proof -
  from runGBM_returns [OF assms] obtain r tape' where
    run: "runGBM (Some prices) days n tape = Some (Result r, tape')" by blast
  from runGBM_data [OF assms run] obtain allPaths tape1 mn mx idxs where
    sp: "simulate_paths prices days n tape = Some (allPaths, tape1)"
    and len: "length allPaths = n" and mn: "mn < n" and mx: "mx < n"
    and rows: "\<forall>t\<le>days. dayData allPaths n mn mx idxs t = Some (data r ! t)"
    and cur: "current (stats r) = js_nth prices (length prices - 1)"
    by metis
  from assms(1) have lp: "js_nth prices (length prices - 1) = last prices"
    by (simp add: js_nth_def last_conv_nth)
  from rows have d0: "dayData allPaths n mn mx idxs 0 = Some (data r ! 0)" by simp
  from simulate_paths_shape(3) [OF sp] lp
  have start: "\<forall>p\<in>set allPaths. js_nth p 0 = last prices" by simp
  from mn mx len start have out: "js_nth (allPaths ! mn) 0 = last prices"
      "js_nth (allPaths ! mx) 0 = last prices" by simp_all
  from dayData_percentile_const(1,2,3) [OF d0 len assms(2) start]
    dayData_outliers [OF d0] mn mx len out cur lp run
  show ?thesis by simp
qed

theorem C4_day_zero_is_last_price_witness:
  "\<exists>r tape'. runGBM (Some [Num 100, Num 102, Num 101, Num 105, Num 104]) 2 3
                 (replicate 42 (1 / 2)) = Some (Result r, tape')
           \<and> median (data r ! 0) = last [Num 100, Num 102, Num 101, Num 105, Num 104]
           \<and> p5 (data r ! 0) = last [Num 100, Num 102, Num 101, Num 105, Num 104]
           \<and> p95 (data r ! 0) = last [Num 100, Num 102, Num 101, Num 105, Num 104]
           \<and> outlierMin (data r ! 0) = last [Num 100, Num 102, Num 101, Num 105, Num 104]
           \<and> outlierMax (data r ! 0) = last [Num 100, Num 102, Num 101, Num 105, Num 104]
           \<and> current (stats r) = last [Num 100, Num 102, Num 101, Num 105, Num 104]"
proof -
  have h1: "[Num 100, Num 102, Num 101, Num 105, Num 104] \<noteq> []" by simp
  have h2: "1 \<le> (3::nat)" by simp
  have h3: "2 * 2 * 3 + 30 \<le> nonzero_draws (replicate 42 (1 / 2))"
    by (simp add: nonzero_draws_def)
  have h4: "\<forall>u\<in>set (replicate 42 (1 / 2 :: real)). 0 \<le> u \<and> u < 1" by simp
  show ?thesis by (rule C4_day_zero_is_last_price [OF h1 h2 h3 h4])
qed




text \<open>
  C6: \<open>runGBM\<close> returns \<^verbatim>\<open>null\<close> exactly when the price sequence is absent or empty, and
  then it returns it at once, drawing nothing and raising nothing; for a non-empty
  price sequence, a path count of at least 1 and a tape that holds the draws the run
  asks for, it returns a result.
\<close>

theorem C6_null_iff_no_prices:
  "((\<exists>tape'. runGBM historicalPrices days n tape = Some (Null, tape'))
      \<longleftrightarrow> (historicalPrices = None \<or> historicalPrices = Some []))
   \<and> (historicalPrices = None \<or> historicalPrices = Some []
        \<longrightarrow> runGBM historicalPrices days n tape = Some (Null, tape))
   \<and> ((\<exists>prices. historicalPrices = Some prices \<and> prices \<noteq> []) \<and> 1 \<le> n
        \<and> 2 * days * n + 30 \<le> nonzero_draws tape \<and> (\<forall>u\<in>set tape. 0 \<le> u \<and> u < 1)
        \<longrightarrow> (\<exists>r tape'. runGBM historicalPrices days n tape = Some (Result r, tape')))"
proof (intro conjI)
  have null: "runGBM historicalPrices days n tape = Some (Null, tape)"
    if "historicalPrices = None \<or> historicalPrices = Some []"
    using that by (auto simp: runGBM_def)
  have not_null: "runGBM (Some prices) days n tape \<noteq> Some (Null, tape')"
    if "prices \<noteq> []" for prices tape'
    using that by (simp add: runGBM_def split: option.splits prod.splits)
  show "(\<exists>tape'. runGBM historicalPrices days n tape = Some (Null, tape'))
      \<longleftrightarrow> (historicalPrices = None \<or> historicalPrices = Some [])"
  proof
    assume "\<exists>tape'. runGBM historicalPrices days n tape = Some (Null, tape')"
    with not_null show "historicalPrices = None \<or> historicalPrices = Some []"
      by (cases historicalPrices) auto
  next
    assume "historicalPrices = None \<or> historicalPrices = Some []"
    with null show "\<exists>tape'. runGBM historicalPrices days n tape = Some (Null, tape')"
      by blast
  qed
  show "historicalPrices = None \<or> historicalPrices = Some []
        \<longrightarrow> runGBM historicalPrices days n tape = Some (Null, tape)"
    using null by blast
  show "(\<exists>prices. historicalPrices = Some prices \<and> prices \<noteq> []) \<and> 1 \<le> n
        \<and> 2 * days * n + 30 \<le> nonzero_draws tape \<and> (\<forall>u\<in>set tape. 0 \<le> u \<and> u < 1)
        \<longrightarrow> (\<exists>r tape'. runGBM historicalPrices days n tape = Some (Result r, tape'))"
    using runGBM_returns by blast
qed

theorem C6_null_iff_no_prices_witness:
  "runGBM None 2 3 (replicate 42 (1 / 2)) = Some (Null, replicate 42 (1 / 2))
   \<and> runGBM (Some []) 2 3 (replicate 42 (1 / 2)) = Some (Null, replicate 42 (1 / 2))
   \<and> (\<exists>r tape'. runGBM (Some [Num 100, Num 102, Num 101]) 2 3 (replicate 42 (1 / 2))
                     = Some (Result r, tape'))"
proof -
  have h3: "2 * 2 * 3 + 30 \<le> nonzero_draws (replicate 42 (1 / 2))"
    by (simp add: nonzero_draws_def)
  have h4: "\<forall>u\<in>set (replicate 42 (1 / 2 :: real)). 0 \<le> u \<and> u < 1" by simp
  from C6_null_iff_no_prices [of None 2 3 "replicate 42 (1 / 2)"]
  have a: "runGBM None 2 3 (replicate 42 (1 / 2)) = Some (Null, replicate 42 (1 / 2))"
    by blast
  from C6_null_iff_no_prices [of "Some []" 2 3 "replicate 42 (1 / 2)"]
  have b: "runGBM (Some []) 2 3 (replicate 42 (1 / 2)) = Some (Null, replicate 42 (1 / 2))"
    by blast
  from C6_null_iff_no_prices [of "Some [Num 100, Num 102, Num 101]" 2 3 "replicate 42 (1 / 2)"]
    h3 h4
  have c: "\<exists>r tape'. runGBM (Some [Num 100, Num 102, Num 101]) 2 3 (replicate 42 (1 / 2))
                     = Some (Result r, tape')"
    by simp
  from a b c show ?thesis by blast
qed



text \<open>
  C8, as the code has it: a non-empty price series with fewer than two log returns
  (one or two prices) raises no error. The drift is \<open>NaN\<close> (the mean of no returns is
  \<open>0 / 0\<close>, the variance of one return is \<open>0 / 0\<close>), the run returns a result, and in it
  the median, the 5th and 95th percentile and both outlier values of every day after
  day 0 are \<open>NaN\<close>.
\<close>

theorem C8_degenerate_statistics:
  assumes "prices \<noteq> []" and "length prices \<le> 2" and "1 \<le> n"
    and "2 * days * n + 30 \<le> nonzero_draws tape"
    and "\<forall>u\<in>set tape. 0 \<le> u \<and> u < 1"
  shows "\<exists>r tape'. runGBM (Some prices) days n tape = Some (Result r, tape')
           \<and> drift (log_returns prices) = NaN
           \<and> (\<forall>t. 1 \<le> t \<and> t \<le> days \<longrightarrow>
                 median (data r ! t) = NaN \<and> p5 (data r ! t) = NaN \<and> p95 (data r ! t) = NaN
                 \<and> outlierMin (data r ! t) = NaN \<and> outlierMax (data r ! t) = NaN)"
proof -
  note hyps = assms(1,3,4,5)
  from runGBM_returns [OF hyps] obtain r tape' where
    run: "runGBM (Some prices) days n tape = Some (Result r, tape')" by blast
  from runGBM_degenerate_day [OF hyps run assms(2)] drift_degenerate [OF assms(2)] run
  show ?thesis by blast
qed

theorem C8_degenerate_statistics_witness:
  "\<exists>r tape'. runGBM (Some [Num 100, Num 101]) 2 3 (replicate 42 (1 / 2)) = Some (Result r, tape')
           \<and> drift (log_returns [Num 100, Num 101]) = NaN
           \<and> (\<forall>t. 1 \<le> t \<and> t \<le> 2 \<longrightarrow>
                 median (data r ! t) = NaN \<and> p5 (data r ! t) = NaN \<and> p95 (data r ! t) = NaN
                 \<and> outlierMin (data r ! t) = NaN \<and> outlierMax (data r ! t) = NaN)"
proof -
  have h1: "[Num 100, Num 101] \<noteq> []" by simp
  have h2: "length [Num 100, Num 101] \<le> 2" by simp
  have h3: "1 \<le> (3::nat)" by simp
  have h4: "2 * 2 * 3 + 30 \<le> nonzero_draws (replicate 42 (1 / 2))"
    by (simp add: nonzero_draws_def)
  have h5: "\<forall>u\<in>set (replicate 42 (1 / 2 :: real)). 0 \<le> u \<and> u < 1" by simp
  show ?thesis by (rule C8_degenerate_statistics [OF h1 h2 h3 h4 h5])
qed

theorem C8_no_error_counterexample:
  "map median (result_data (runGBM (Some [Num 100, Num 101]) 1 1 (replicate 32 (1 / 2))))
     = [Num 101, NaN]"
proof -
  have hyps: "[Num 100, Num 101] \<noteq> []" "1 \<le> (1::nat)"
    "2 * 1 * 1 + 30 \<le> nonzero_draws (replicate 32 (1 / 2))"
    "\<forall>u\<in>set (replicate 32 (1 / 2 :: real)). 0 \<le> u \<and> u < 1"
    by (simp_all add: nonzero_draws_def)
  from runGBM_returns [OF hyps] obtain r tape' where
    run: "runGBM (Some [Num 100, Num 101]) 1 1 (replicate 32 (1 / 2)) = Some (Result r, tape')"
    by blast
  from runGBM_data [OF hyps run] have len: "length (data r) = Suc 1" by metis
  then have two: "data r = [data r ! 0, data r ! 1]"
    by (cases "data r"; cases "tl (data r)") auto
  from runGBM_day_zero(2) [OF hyps run] have m0: "median (data r ! 0) = Num 101" by simp
  have "length [Num 100, Num 101] \<le> 2" by simp
  from runGBM_degenerate_day(2) [OF hyps run this, of 1]
  have m1: "median (data r ! 1) = NaN" by simp
  have "map median (data r) = [median (data r ! 0), median (data r ! 1)]"
    by (subst two) simp
  with m0 m1 run show ?thesis by simp
qed

text \<open>
  C9: the sampler rejects every draw of \<open>0\<close>, and from the first two draws \<open>u\<close> and \<open>v\<close>
  that are not \<open>0\<close> it returns \<open>sqrt (- 2 ln u) * cos (2 pi v)\<close>; for \<open>u\<close> and \<open>v\<close> in
  the open interval \<open>(0, 1)\<close> that is a finite number, neither \<open>NaN\<close> nor an infinity.
\<close>

theorem C9_generateGaussian_finite:
  assumes "0 < u" "u < 1" "0 < v" "v < 1"
  shows "generateGaussian (replicate i 0 @ u # replicate j 0 @ v # rest)
           = Some (Num (sqrt (- 2 * ln u) * cos (2 * pi * v)), rest)
    \<and> is_finite (Num (sqrt (- 2 * ln u) * cos (2 * pi * v)))"
proof -
  from assms have u: "u \<noteq> 0" and v: "v \<noteq> 0" by simp_all
  have ru: "redraw 0 (replicate i 0 @ u # replicate j 0 @ v # rest)
          = Some (u, replicate j 0 @ v # rest)"
    by (rule redraw_zeros [OF u])
  have rv: "redraw 0 (replicate j 0 @ v # rest) = Some (v, rest)"
    by (rule redraw_zeros [OF v])
  have "generateGaussian (replicate i 0 @ u # replicate j 0 @ v # rest)
          = Some (js_mul (Math_sqrt (js_mul (Num (- 2)) (Math_log (Num u))))
                    (Math_cos (js_mul (js_mul (Num 2) Math_PI) (Num v))), rest)"
    by (simp only: generateGaussian_def ru rv option.case prod.case)
  then show ?thesis
    unfolding gaussian_finite [OF assms(1,2)] by simp
qed

theorem C9_generateGaussian_finite_witness:
  "generateGaussian (replicate 2 0 @ (1 / 2) # replicate 1 0 @ (1 / 4) # [])
     = Some (Num (sqrt (- 2 * ln (1 / 2)) * cos (2 * pi * (1 / 4))), [])
   \<and> is_finite (Num (sqrt (- 2 * ln (1 / 2)) * cos (2 * pi * (1 / 4))))"
proof -
  have h: "(0::real) < 1 / 2" "(1::real) / 2 < 1" "(0::real) < 1 / 4" "(1::real) / 4 < 1"
    by simp_all
  show ?thesis by (rule C9_generateGaussian_finite [OF h])
qed



end
